theory Spec2Isabelle
  imports Main "HOL-Library.Sublist"
begin


section \<open>Text\<close>

text \<open>
  A Python \<open>str\<close> is a sequence of Unicode code points, and slicing and \<open>len\<close> count code
  points. The program's literals are largely Cyrillic, so text is modelled as a list of
  code points; \<open>ascii\<close> embeds an ASCII literal.
\<close>

type_synonym ustr = "nat list"

definition ascii :: "string \<Rightarrow> ustr" where
  "ascii s = map of_char s"

text \<open>\<open>str.isspace\<close> of one code point, and \<open>str.strip()\<close>.\<close>

definition py_isspace :: "nat \<Rightarrow> bool" where
  "py_isspace c \<longleftrightarrow>
     (9 \<le> c \<and> c \<le> 13) \<or> (28 \<le> c \<and> c \<le> 32) \<or> c = 133 \<or> c = 160 \<or> c = 5760 \<or>
     (8192 \<le> c \<and> c \<le> 8202) \<or> c = 8232 \<or> c = 8233 \<or> c = 8239 \<or> c = 8287 \<or> c = 12288"

definition strip :: "ustr \<Rightarrow> ustr" where
  "strip s = rev (dropWhile py_isspace (rev (dropWhile py_isspace s)))"

text \<open>
  \<open>s.replace(old, new)\<close>: every non-overlapping occurrence of \<open>old\<close>, from the left.
  Every call of the program passes a non-empty \<open>old\<close>; for an empty one (where Python
  inserts \<open>new\<close> around every character) the model returns \<open>s\<close>.
\<close>

function replace :: "ustr \<Rightarrow> ustr \<Rightarrow> ustr \<Rightarrow> ustr" where
  "replace [] old new = []"
| "replace (c # s) old new =
     (if old \<noteq> [] \<and> prefix old (c # s)
      then new @ replace (drop (length old) (c # s)) old new
      else c # replace s old new)"
  by pat_completeness auto
termination
  by (relation "measure (\<lambda>(s, old, new). length s)") auto

section \<open>Exceptions\<close>

text \<open>
  The exceptions of class \<open>Exception\<close> that the program raises itself or receives from a
  library. \<open>LibraryError\<close> stands for any exception of an external library or service,
  with its message.
\<close>

datatype exn =
    ValueError
  | IndexError
  | AttributeError
  | FileNotFoundError
  | HTTPError nat
  | CalledProcessError
  | LibraryError ustr

section \<open>Configuration\<close>

definition MAX_ARTICLES_PER_BLOG :: nat where
  "MAX_ARTICLES_PER_BLOG = 2"

definition LOOKBACK_HOURS :: int where
  "LOOKBACK_HOURS = 24"

text \<open>The values read from the process environment at import time, and the home directory.\<close>

record config =
  GROQ_API_KEY :: ustr
  TG_TOKEN :: ustr
  TG_CHAT_ID :: ustr
  HF_MODEL_URL :: ustr
  home :: ustr

definition FEEDS :: "(ustr \<times> ustr) list" where
  "FEEDS =
    [([128308, 32] @ ascii ''BleepingComputer'', ascii ''https://www.bleepingcomputer.com/feed/''),
     ([128308, 32] @ ascii ''The Hacker News'', ascii ''https://feeds.feedburner.com/TheHackersNews''),
     ([128308, 32] @ ascii ''Kaspersky Blog'', ascii ''https://www.kaspersky.com/blog/feed/''),
     ([128308, 32] @ ascii ''BlockThreat'', ascii ''https://blockthreat.io/feed/''),
     ([128308, 32] @ ascii ''Objective-See'', ascii ''https://objective-see.org/rss.xml'')]"

section \<open>Dates\<close>

text \<open>
  \<open>time.struct_time\<close>, of which the program reads the first six fields. An aware UTC
  \<open>datetime\<close> is modelled as its number of microseconds on the proleptic Gregorian
  time line, computed as Python's \<open>datetime\<close> module computes ordinals; on valid
  fields this is monotone in the field-wise order that Python compares by, and
  subtracting a \<open>timedelta\<close> is integer subtraction.
\<close>

record struct_time =
  tm_year :: int
  tm_mon :: int
  tm_mday :: int
  tm_hour :: int
  tm_min :: int
  tm_sec :: int

type_synonym datetime = int

definition is_leap :: "int \<Rightarrow> bool" where
  "is_leap y \<longleftrightarrow> y mod 4 = 0 \<and> (y mod 100 \<noteq> 0 \<or> y mod 400 = 0)"

definition DAYS_IN_MONTH :: "int list" where
  "DAYS_IN_MONTH = [31, 28, 31, 30, 31, 30, 31, 31, 30, 31, 30, 31]"

definition days_in_month :: "int \<Rightarrow> int \<Rightarrow> int" where
  "days_in_month y m = (if m = 2 \<and> is_leap y then 29 else DAYS_IN_MONTH ! nat (m - 1))"

definition days_before_year :: "int \<Rightarrow> int" where
  "days_before_year y =
     (y - 1) * 365 + (y - 1) div 4 - (y - 1) div 100 + (y - 1) div 400"

definition days_before_month :: "int \<Rightarrow> int \<Rightarrow> int" where
  "days_before_month y m =
     sum_list (take (nat (m - 1)) DAYS_IN_MONTH) + (if m > 2 \<and> is_leap y then 1 else 0)"

definition ymd2ord :: "int \<Rightarrow> int \<Rightarrow> int \<Rightarrow> int" where
  "ymd2ord y m d = days_before_year y + days_before_month y m + d"

text \<open>\<open>datetime(*val[:6], tzinfo=timezone.utc)\<close>: \<open>ValueError\<close> on a field out of range.\<close>

definition datetime_utc :: "struct_time \<Rightarrow> exn + datetime" where
  "datetime_utc val =
     (if 1 \<le> tm_year val \<and> tm_year val \<le> 9999 \<and>
         1 \<le> tm_mon val \<and> tm_mon val \<le> 12 \<and>
         1 \<le> tm_mday val \<and> tm_mday val \<le> days_in_month (tm_year val) (tm_mon val) \<and>
         0 \<le> tm_hour val \<and> tm_hour val \<le> 23 \<and>
         0 \<le> tm_min val \<and> tm_min val \<le> 59 \<and>
         0 \<le> tm_sec val \<and> tm_sec val \<le> 59
      then Inr ((((ymd2ord (tm_year val) (tm_mon val) (tm_mday val) * 24 + tm_hour val) * 60
                  + tm_min val) * 60 + tm_sec val) * 1000000)
      else Inl ValueError)"

text \<open>\<open>timedelta(hours=h)\<close> in microseconds.\<close>

definition timedelta_hours :: "int \<Rightarrow> int" where
  "timedelta_hours h = h * 3600 * 1000000"

section \<open>Feed entries and articles\<close>

text \<open>
  An entry of \<open>feedparser\<close>: a field that is absent (or \<open>None\<close>) is \<open>None\<close>. A
  \<open>struct_time\<close> is a non-empty tuple and so always true in \<open>if val\<close>.
\<close>

record entry =
  entry_title :: "ustr option"
  entry_link :: "ustr option"
  entry_summary :: "ustr option"
  entry_description :: "ustr option"
  published_parsed :: "struct_time option"
  updated_parsed :: "struct_time option"

record article =
  title :: ustr
  link :: ustr
  content :: ustr
  pub :: datetime

definition default_title :: ustr where
  "default_title = [1041, 1077, 1079, 32, 1079, 1072, 1075, 1086, 1083, 1086, 1074, 1082, 1072]"

text \<open>
  Lines 55 to 60: the first of the given attributes that has a value decides \<open>pub\<close>;
  the later ones are not looked at.
\<close>

fun first_parsed :: "struct_time option list \<Rightarrow> exn + datetime option" where
  "first_parsed [] = Inr None"
| "first_parsed (None # vals) = first_parsed vals"
| "first_parsed (Some val # vals) =
     (case datetime_utc val of Inl e \<Rightarrow> Inl e | Inr p \<Rightarrow> Inr (Some p))"

definition entry_pub :: "entry \<Rightarrow> exn + datetime option" where
  "entry_pub e = first_parsed [published_parsed e, updated_parsed e]"

definition get_or :: "'a option \<Rightarrow> 'a \<Rightarrow> 'a" where
  "get_or v d = (case v of None \<Rightarrow> d | Some x \<Rightarrow> x)"

definition mk_article :: "entry \<Rightarrow> datetime \<Rightarrow> article" where
  "mk_article e p =
     \<lparr>title = strip (get_or (entry_title e) default_title),
      link = get_or (entry_link e) [],
      content = take 4000 (get_or (entry_summary e) (get_or (entry_description e) [])),
      pub = p\<rparr>"

text \<open>The loop of lines 54 to 73 over the entries, with the list built so far.\<close>

fun collect :: "datetime \<Rightarrow> entry list \<Rightarrow> article list \<Rightarrow> exn + article list" where
  "collect cutoff [] articles = Inr articles"
| "collect cutoff (e # entries) articles =
     (case entry_pub e of
        Inl err \<Rightarrow> Inl err
      | Inr None \<Rightarrow> collect cutoff entries articles
      | Inr (Some p) \<Rightarrow>
          if p < cutoff then collect cutoff entries articles
          else if length (articles @ [mk_article e p]) \<ge> MAX_ARTICLES_PER_BLOG
               then Inr (articles @ [mk_article e p])
               else collect cutoff entries (articles @ [mk_article e p]))"

section \<open>The world outside the program\<close>

text \<open>
  Every call that leaves the program (the clock, the feed parser, the chat completion
  service, the speech service, HTTP, the archive library, \<open>ffmpeg\<close>, the voice
  conversion library, the temporary file name) is answered by the environment. The
  \<open>n\<close>-th call of a run takes its answer at index \<open>n\<close>, so that an environment is one
  complete behaviour of the outside world and a statement about every environment is a
  statement about every behaviour. \<open>strftime\<close> and \<open>zip_members\<close> are library
  functions taken as parameters; \<open>zip_members\<close> gives the members of an archive, files
  and folders, as relative paths. \<open>listing_key\<close> is the order in which the file system
  and \<open>pathlib\<close> yield the entries of a directory tree: an entry with a smaller key
  comes first.
\<close>

record http_response =
  status_code :: nat
  body :: "exn + nat list"

record tg_response =
  resp_ok :: bool
  resp_text :: ustr

record env =
  utc_now :: "nat \<Rightarrow> datetime"
  strftime :: "ustr \<Rightarrow> datetime \<Rightarrow> ustr"
  feedparser_parse :: "nat \<Rightarrow> exn + entry list"
  chat_create :: "nat \<Rightarrow> exn + ustr option list"
  named_temporary_file :: "nat \<Rightarrow> ustr"
  gtts_save :: "nat \<Rightarrow> exn option"
  requests_get :: "nat \<Rightarrow> exn + http_response"
  zip_members :: "nat list \<Rightarrow> exn + ustr list list"
  listing_key :: "ustr list \<Rightarrow> nat"
  import_rvc :: "nat \<Rightarrow> exn option"
  ffmpeg :: "nat \<Rightarrow> exn option"
  rvc_infer :: "nat \<Rightarrow> exn option"
  requests_post :: "nat \<Rightarrow> exn + tg_response"

text \<open>The calls that leave the program, in the order made.\<close>

datatype event =
    FeedParse ustr
  | ChatCompletion ustr
  | GttsSave ustr ustr
  | HttpGet ustr
  | Ffmpeg ustr ustr
  | RvcInfer ustr ustr ustr ustr
  | SendMessage ustr
  | SendAudio ustr ustr
  | Sleep nat

text \<open>The lines printed, one constructor for each \<open>print\<close> of the source.\<close>

datatype log_line =
    LogRssError ustr exn
  | LogGroqError exn
  | LogModelCached ustr
  | LogModelDownloading ustr
  | LogTgAudioError ustr
  | LogBanner ustr
  | LogModelReady ustr
  | LogModelFailed exn
  | LogBlog ustr
  | LogNoNew
  | LogArticle ustr
  | LogSummary ustr
  | LogRvcOk
  | LogRvcError exn
  | LogSent
  | LogBlank
  | LogNothingFound
  | LogDone nat

text \<open>
  The state: the files on temporary storage (by path), the entries below
  \<open>MODEL_CACHE_DIR\<close> (files and folders at any depth, each by its relative path), the
  calls made, the lines printed, and the number of answers taken from the environment.
\<close>

record world =
  tmp_files :: "ustr list"
  cache :: "ustr list list"
  trace :: "event list"
  stdout :: "log_line list"
  tick :: nat

definition emit :: "event \<Rightarrow> world \<Rightarrow> world" where
  "emit ev w = w\<lparr>trace := trace w @ [ev], tick := Suc (tick w)\<rparr>"

definition print_line :: "log_line \<Rightarrow> world \<Rightarrow> world" where
  "print_line l w = w\<lparr>stdout := stdout w @ [l]\<rparr>"

definition create_file :: "ustr \<Rightarrow> world \<Rightarrow> world" where
  "create_file p w = w\<lparr>tmp_files := List.insert p (tmp_files w)\<rparr>"

definition unlink_if_exists :: "ustr \<Rightarrow> world \<Rightarrow> world" where
  "unlink_if_exists p w = w\<lparr>tmp_files := removeAll p (tmp_files w)\<rparr>"

section \<open>RSS: the recent articles of a feed\<close>

definition get_recent_articles :: "env \<Rightarrow> ustr \<Rightarrow> world \<Rightarrow> (exn + article list) \<times> world" where
  "get_recent_articles ev feed_url w =
     (case feedparser_parse ev (tick w) of
        Inl e \<Rightarrow> (Inr [], print_line (LogRssError feed_url e) (emit (FeedParse feed_url) w))
      | Inr entries \<Rightarrow>
          (let w1 = emit (FeedParse feed_url) w;
               cutoff = utc_now ev (tick w1) - timedelta_hours LOOKBACK_HOURS
           in (collect cutoff entries [], w1\<lparr>tick := Suc (tick w1)\<rparr>)))"

section \<open>Groq: the summary\<close>

definition prompt_instruction :: ustr where
  "prompt_instruction =
    [1058, 1099, 32, 8212, 32, 1076, 1080, 1082, 1090, 1086, 1088, 32, 1085, 1086, 1074, 1086,
     1089, 1090, 1077, 1081, 32, 1082, 1080, 1073, 1077, 1088, 1073, 1077, 1079, 1086, 1087,
     1072, 1089, 1085, 1086, 1089, 1090, 1080, 46, 32, 1053, 1072, 1087, 1080, 1096, 1080, 32,
     1082, 1088, 1072, 1090, 1082, 1086, 1077, 32, 1088, 1077, 1079, 1102, 1084, 1077, 32,
     1101, 1090, 1086, 1081, 32, 1089, 1090, 1072, 1090, 1100, 1080, 32, 1053, 1040, 32, 1056,
     1059, 1057, 1057, 1050, 1054, 1052, 32, 1103, 1079, 1099, 1082, 1077, 32, 8212, 32, 1088,
     1086, 1074, 1085, 1086, 32, 51, 32, 1087, 1088, 1077, 1076, 1083, 1086, 1078, 1077, 1085,
     1080, 1103, 46, 32, 1055, 1088, 1086, 1089, 1090, 1099, 1084, 32, 1103, 1079, 1099, 1082,
     1086, 1084, 44, 32, 1073, 1077, 1079, 32, 1090, 1077, 1093, 1085, 1080, 1095, 1077, 1089,
     1082, 1086, 1075, 1086, 32, 1078, 1072, 1088, 1075, 1086, 1085, 1072, 44, 32, 1073, 1077,
     1079, 32, 1074, 1089, 1090, 1091, 1087, 1083, 1077, 1085, 1080, 1081, 32, 1074, 1088,
     1086, 1076, 1077, 32, 39, 1042, 1086, 1090, 32, 1088, 1077, 1079, 1102, 1084, 1077, 58,
     39, 46, 32, 1058, 1086, 1083, 1100, 1082, 1086, 32, 1089, 1072, 1084, 32, 1090, 1077,
     1082, 1089, 1090, 32, 1088, 1077, 1079, 1102, 1084, 1077, 46, 10, 10]"

definition prompt :: "ustr \<Rightarrow> ustr \<Rightarrow> ustr" where
  "prompt ttl cnt =
     prompt_instruction
     @ [1047, 1072, 1075, 1086, 1083, 1086, 1074, 1086, 1082, 58, 32] @ ttl
     @ [10, 10, 1058, 1077, 1082, 1089, 1090, 58, 32] @ cnt"

text \<open>The text of line 103 before the title.\<close>

definition fallback_prefix :: ustr where
  "fallback_prefix = [1053, 1086, 1074, 1072, 1103, 32, 1089, 1090, 1072, 1090, 1100, 1103, 58, 32]"

text \<open>
  The answer of the service is the list \<open>resp.choices\<close>, each choice by its
  \<open>message.content\<close> (which may be \<open>None\<close>). Everything from the request to
  \<open>.strip()\<close> is inside the \<open>try\<close>, so \<open>IndexError\<close> on no choice and
  \<open>AttributeError\<close> on a content of \<open>None\<close> end in the handler as well.
\<close>

definition summarize_to_russian :: "env \<Rightarrow> ustr \<Rightarrow> ustr \<Rightarrow> world \<Rightarrow> ustr \<times> world" where
  "summarize_to_russian ev ttl cnt w =
     (let w1 = emit (ChatCompletion (prompt ttl cnt)) w
      in case chat_create ev (tick w) of
           Inl e \<Rightarrow> (fallback_prefix @ ttl, print_line (LogGroqError e) w1)
         | Inr [] \<Rightarrow> (fallback_prefix @ ttl, print_line (LogGroqError IndexError) w1)
         | Inr (None # _) \<Rightarrow> (fallback_prefix @ ttl, print_line (LogGroqError AttributeError) w1)
         | Inr (Some c # _) \<Rightarrow> (strip c, w1))"

section \<open>gTTS: text to mp3\<close>

definition tts_to_mp3 :: "env \<Rightarrow> ustr \<Rightarrow> ustr \<Rightarrow> world \<Rightarrow> (exn + unit) \<times> world" where
  "tts_to_mp3 ev txt out_path w =
     (let w1 = emit (GttsSave txt out_path) w
      in case gtts_save ev (tick w) of
           Some e \<Rightarrow> (Inl e, w1)
         | None \<Rightarrow> (Inr (), create_file out_path w1))"

section \<open>RVC: the model cache\<close>

text \<open>
  \<open>MODEL_CACHE_DIR\<close> and \<open>str\<close> of an entry below it. \<open>Path.glob\<close> with the pattern
  \<open>*.ext\<close> yields the direct children, files or folders, whose name ends in \<open>.ext\<close>,
  \<open>Path.rglob\<close> those at any depth; the order of the result is the environment's.
  Extracting a member of an archive creates the folders on its path as well.
\<close>

definition cache_dir :: "config \<Rightarrow> ustr" where
  "cache_dir cfg = home cfg @ ascii ''/.rvc_models/kanevsky''"

definition path_str :: "config \<Rightarrow> ustr list \<Rightarrow> ustr" where
  "path_str cfg p = cache_dir cfg @ concat (map (\<lambda>c. ascii ''/'' @ c) p)"

definition glob :: "env \<Rightarrow> ustr \<Rightarrow> ustr list list \<Rightarrow> ustr list list" where
  "glob ev ext entries =
     sort_key (listing_key ev) (filter (\<lambda>p. length p = 1 \<and> suffix ext (last p)) entries)"

definition rglob :: "env \<Rightarrow> ustr \<Rightarrow> ustr list list \<Rightarrow> ustr list list" where
  "rglob ev ext entries =
     sort_key (listing_key ev) (filter (\<lambda>p. p \<noteq> [] \<and> suffix ext (last p)) entries)"

definition add_entry :: "ustr list \<Rightarrow> ustr list list \<Rightarrow> ustr list list" where
  "add_entry p entries = (if p \<in> set entries then entries else entries @ [p])"

definition add_path :: "ustr list \<Rightarrow> ustr list list \<Rightarrow> ustr list list" where
  "add_path p entries = foldl (\<lambda>c q. add_entry q c) entries (tl (prefixes p))"

text \<open>\<open>str(pth_files[0]), str(index_files[0]) if index_files else ""\<close>, for a non-empty first list.\<close>

definition model_paths :: "config \<Rightarrow> ustr list \<Rightarrow> ustr list list \<Rightarrow> ustr \<times> ustr" where
  "model_paths cfg pth index_files =
     (path_str cfg pth, case index_files of [] \<Rightarrow> [] | i # _ \<Rightarrow> path_str cfg i)"

text \<open>
  The cache directory is taken to exist, so that \<open>mkdir(parents=True, exist_ok=True)\<close>
  does nothing. The download writes \<open>model.zip\<close> into the directory, extracts the
  members of the archive into it and removes \<open>model.zip\<close>.
\<close>

definition download_model_if_needed ::
    "config \<Rightarrow> env \<Rightarrow> world \<Rightarrow> (exn + ustr \<times> ustr) \<times> world" where
  "download_model_if_needed cfg ev w =
     (case glob ev (ascii ''.pth'') (cache w) of
        pth # _ \<Rightarrow>
          (Inr (model_paths cfg pth (glob ev (ascii ''.index'') (cache w))),
           print_line (LogModelCached (path_str cfg pth)) w)
      | [] \<Rightarrow>
          (let w1 = print_line (LogModelDownloading (HF_MODEL_URL cfg)) w;
               w2 = emit (HttpGet (HF_MODEL_URL cfg)) w1
           in case requests_get ev (tick w1) of
                Inl e \<Rightarrow> (Inl e, w2)
              | Inr r \<Rightarrow>
                  if 400 \<le> status_code r \<and> status_code r < 600
                  then (Inl (HTTPError (status_code r)), w2)
                  else
                    (let w3 = w2\<lparr>cache := add_entry [ascii ''model.zip''] (cache w2)\<rparr>
                     in case body r of
                          Inl e \<Rightarrow> (Inl e, w3)
                        | Inr bytes \<Rightarrow>
                            (case zip_members ev bytes of
                               Inl e \<Rightarrow> (Inl e, w3)
                             | Inr members \<Rightarrow>
                                 (let w4 = w3\<lparr>cache := removeAll [ascii ''model.zip'']
                                                          (foldl (\<lambda>c m. add_path m c) (cache w3) members)\<rparr>
                                  in case rglob ev (ascii ''.pth'') (cache w4) of
                                       [] \<Rightarrow> (Inl FileNotFoundError, w4)
                                     | pth # _ \<Rightarrow>
                                         (Inr (model_paths cfg pth (rglob ev (ascii ''.index'') (cache w4))),
                                          w4))))))"

section \<open>RVC: the conversion\<close>

text \<open>
  A run of \<open>ffmpeg\<close> with \<open>check=True\<close>, and the three calls of the conversion library
  (constructor, \<open>load_model\<close>, \<open>infer_file\<close>) taken together. A call that succeeds
  leaves its output file; a call that raises is taken to leave none.
\<close>

definition run_ffmpeg :: "env \<Rightarrow> ustr \<Rightarrow> ustr \<Rightarrow> world \<Rightarrow> (exn + unit) \<times> world" where
  "run_ffmpeg ev src dst w =
     (let w1 = emit (Ffmpeg src dst) w
      in case ffmpeg ev (tick w) of
           Some e \<Rightarrow> (Inl e, w1)
         | None \<Rightarrow> (Inr (), create_file dst w1))"

definition run_rvc :: "env \<Rightarrow> ustr \<Rightarrow> ustr \<Rightarrow> ustr \<Rightarrow> ustr \<Rightarrow> world \<Rightarrow> (exn + unit) \<times> world" where
  "run_rvc ev model_pth model_index wav_in wav_out w =
     (let w1 = emit (RvcInfer model_pth model_index wav_in wav_out) w
      in case rvc_infer ev (tick w) of
           Some e \<Rightarrow> (Inl e, w1)
         | None \<Rightarrow> (Inr (), create_file wav_out w1))"

definition apply_rvc ::
    "env \<Rightarrow> ustr \<Rightarrow> ustr \<Rightarrow> ustr \<Rightarrow> ustr \<Rightarrow> world \<Rightarrow> (exn + unit) \<times> world" where
  "apply_rvc ev mp3_in mp3_out model_pth model_index w =
     (case import_rvc ev (tick w) of
        Some e \<Rightarrow> (Inl e, w\<lparr>tick := Suc (tick w)\<rparr>)
      | None \<Rightarrow>
          (let wav_in = replace mp3_in (ascii ''.mp3'') (ascii ''_in.wav'');
               wav_out = replace mp3_in (ascii ''.mp3'') (ascii ''_rvc.wav'')
           in case run_ffmpeg ev mp3_in wav_in (w\<lparr>tick := Suc (tick w)\<rparr>) of
                (Inl e, w1) \<Rightarrow> (Inl e, w1)
              | (Inr _, w1) \<Rightarrow>
                  (case run_rvc ev model_pth model_index wav_in wav_out w1 of
                     (Inl e, w2) \<Rightarrow> (Inl e, w2)
                   | (Inr _, w2) \<Rightarrow>
                       (case run_ffmpeg ev wav_out mp3_out w2 of
                          (Inl e, w3) \<Rightarrow> (Inl e, w3)
                        | (Inr _, w3) \<Rightarrow>
                            (Inr (), unlink_if_exists wav_out (unlink_if_exists wav_in w3))))))"

section \<open>Telegram\<close>

text \<open>
  Both requests go to the bot of \<open>TG_TOKEN\<close> and the chat \<open>TG_CHAT_ID\<close> with
  \<open>parse_mode\<close> HTML; the events keep the text, and the caption and file of an upload.
  \<open>tg_send_text\<close> does not look at the response.
\<close>

definition tg_send_text :: "env \<Rightarrow> ustr \<Rightarrow> world \<Rightarrow> (exn + unit) \<times> world" where
  "tg_send_text ev txt w =
     (case requests_post ev (tick w) of
        Inl e \<Rightarrow> (Inl e, emit (SendMessage txt) w)
      | Inr _ \<Rightarrow> (Inr (), emit (SendMessage txt) w))"

definition caption :: "ustr \<Rightarrow> ustr \<Rightarrow> ustr" where
  "caption ttl lnk =
     ascii ''<b>'' @ ttl @ ascii ''</b>'' @ [10, 10, 128279, 32] @ ascii ''<a href='' @ [39] @ lnk
     @ [39] @ ascii ''>''
     @ [1063, 1080, 1090, 1072, 1090, 1100, 32, 1087, 1086, 1083, 1085, 1086, 1089, 1090, 1100, 1102]
     @ ascii ''</a>''"

definition text_notice :: "ustr \<Rightarrow> ustr \<Rightarrow> ustr" where
  "text_notice ttl lnk =
     [128196, 32] @ ascii ''<b>'' @ ttl @ ascii ''</b>'' @ [10, 10, 128279, 32] @ lnk"

definition tg_send_audio :: "env \<Rightarrow> ustr \<Rightarrow> ustr \<Rightarrow> ustr \<Rightarrow> world \<Rightarrow> (exn + unit) \<times> world" where
  "tg_send_audio ev ttl lnk audio_path w =
     (if audio_path \<notin> set (tmp_files w) then (Inl FileNotFoundError, w)
      else
        (let w1 = emit (SendAudio (caption ttl lnk) audio_path) w
         in case requests_post ev (tick w) of
              Inl e \<Rightarrow> (Inl e, w1)
            | Inr resp \<Rightarrow>
                if \<not> resp_ok resp
                then tg_send_text ev (text_notice ttl lnk)
                       (print_line (LogTgAudioError (take 200 (resp_text resp))) w1)
                else (Inr (), w1)))"

section \<open>The main loop\<close>

text \<open>\<open>str\<close> of a natural number, and \<open>time.sleep\<close>, which takes no answer.\<close>

function str_nat :: "nat \<Rightarrow> ustr" where
  "str_nat n = (if n < 10 then [48 + n] else str_nat (n div 10) @ [48 + n mod 10])"
  by pat_completeness auto
termination
  by (relation "measure (\<lambda>n. n)") auto

definition sleep :: "nat \<Rightarrow> world \<Rightarrow> world" where
  "sleep n w = w\<lparr>trace := trace w @ [Sleep n]\<rparr>"

definition header :: "ustr \<Rightarrow> ustr \<Rightarrow> nat \<Rightarrow> ustr" where
  "header blog_name date_str n =
     replicate 20 9473 @ [10] @ blog_name @ [10] @ [128197, 32] @ date_str @ [32, 183, 32]
     @ str_nat n @ [32]
     @ (if n = 1 then [1089, 1090, 1072, 1090, 1100, 1103] else [1089, 1090, 1072, 1090, 1100, 1080])"

text \<open>
  Lines 217 to 228: whether the conversion is used in this run, and the paths of the model.
\<close>

definition resolve_model :: "config \<Rightarrow> env \<Rightarrow> world \<Rightarrow> (bool \<times> ustr \<times> ustr) \<times> world" where
  "resolve_model cfg ev w =
     (if HF_MODEL_URL cfg \<noteq> []
      then (case download_model_if_needed cfg ev w of
              (Inr (model_pth, model_index), w1) \<Rightarrow>
                ((True, model_pth, model_index), print_line (LogModelReady model_pth) w1)
            | (Inl e, w1) \<Rightarrow> ((False, [], []), print_line (LogModelFailed e) w1))
      else ((False, [], []), w))"

text \<open>
  The body of the loop over the articles, in its three parts: lines 250 to 263 (summary,
  temporary file, speech), lines 266 to 274 (the conversion, if used) and lines 277 to
  286 (delivery, removal of the files, pause).
\<close>

definition speak :: "env \<Rightarrow> article \<Rightarrow> world \<Rightarrow> (exn + ustr) \<times> world" where
  "speak ev a w =
     (case summarize_to_russian ev (title a) (content a) (print_line (LogArticle (take 70 (title a))) w) of
        (summary, w2) \<Rightarrow>
          (let w3 = print_line (LogSummary (take 80 summary)) w2;
               tts_path = named_temporary_file ev (tick w3) @ ascii ''.mp3'';
               w4 = create_file tts_path (w3\<lparr>tick := Suc (tick w3)\<rparr>)
           in case tts_to_mp3 ev (title a @ ascii ''. '' @ summary) tts_path w4 of
                (Inl e, w5) \<Rightarrow> (Inl e, w5)
              | (Inr _, w5) \<Rightarrow> (Inr tts_path, w5)))"

definition convert :: "env \<Rightarrow> bool \<Rightarrow> ustr \<Rightarrow> ustr \<Rightarrow> ustr \<Rightarrow> world \<Rightarrow> ustr \<times> world" where
  "convert ev use_rvc model_pth model_index tts_path w =
     (if use_rvc
      then (let rvc_path = replace tts_path (ascii ''.mp3'') (ascii ''_kanevsky.mp3'')
            in case apply_rvc ev tts_path rvc_path model_pth model_index w of
                 (Inr _, w1) \<Rightarrow> (rvc_path, print_line LogRvcOk w1)
               | (Inl e, w1) \<Rightarrow> (tts_path, print_line (LogRvcError e) w1))
      else (tts_path, w))"

definition deliver :: "env \<Rightarrow> article \<Rightarrow> ustr \<Rightarrow> ustr \<Rightarrow> world \<Rightarrow> (exn + unit) \<times> world" where
  "deliver ev a tts_path audio_path w =
     (case tg_send_audio ev (title a) (link a) audio_path w of
        (Inl e, w1) \<Rightarrow> (Inl e, w1)
      | (Inr _, w1) \<Rightarrow>
          (Inr (), sleep 2 (unlink_if_exists audio_path
                             (unlink_if_exists tts_path (print_line LogSent w1)))))"

definition process_article ::
    "env \<Rightarrow> bool \<Rightarrow> ustr \<Rightarrow> ustr \<Rightarrow> article \<Rightarrow> world \<Rightarrow> (exn + unit) \<times> world" where
  "process_article ev use_rvc model_pth model_index a w =
     (case speak ev a w of
        (Inl e, w1) \<Rightarrow> (Inl e, w1)
      | (Inr tts_path, w1) \<Rightarrow>
          (case convert ev use_rvc model_pth model_index tts_path w1 of
             (audio_path, w2) \<Rightarrow> deliver ev a tts_path audio_path w2))"

text \<open>The loop of line 249, with \<open>total_sent\<close>.\<close>

fun process_articles ::
    "env \<Rightarrow> bool \<Rightarrow> ustr \<Rightarrow> ustr \<Rightarrow> article list \<Rightarrow> nat \<Rightarrow> world \<Rightarrow> (exn + nat) \<times> world" where
  "process_articles ev use_rvc model_pth model_index [] total_sent w = (Inr total_sent, w)"
| "process_articles ev use_rvc model_pth model_index (a # articles) total_sent w =
     (case process_article ev use_rvc model_pth model_index a w of
        (Inl e, w1) \<Rightarrow> (Inl e, w1)
      | (Inr _, w1) \<Rightarrow>
          process_articles ev use_rvc model_pth model_index articles (Suc total_sent) w1)"

text \<open>The body of the loop over the feeds, lines 233 to 288.\<close>

definition process_feed ::
    "env \<Rightarrow> bool \<Rightarrow> ustr \<Rightarrow> ustr \<Rightarrow> ustr \<times> ustr \<Rightarrow> nat \<Rightarrow> world \<Rightarrow> (exn + nat) \<times> world" where
  "process_feed ev use_rvc model_pth model_index feed total_sent w =
     (case get_recent_articles ev (snd feed) (print_line (LogBlog (fst feed)) w) of
        (Inl e, w1) \<Rightarrow> (Inl e, w1)
      | (Inr articles, w1) \<Rightarrow>
          if articles = [] then (Inr total_sent, print_line LogNoNew w1)
          else
            (let date_str = strftime ev (ascii ''%d.%m.%Y'') (utc_now ev (tick w1))
             in case tg_send_text ev (header (fst feed) date_str (length articles))
                       (w1\<lparr>tick := Suc (tick w1)\<rparr>) of
                  (Inl e, w2) \<Rightarrow> (Inl e, w2)
                | (Inr _, w2) \<Rightarrow>
                    (case process_articles ev use_rvc model_pth model_index articles total_sent
                            (sleep 1 w2) of
                       (Inl e, w3) \<Rightarrow> (Inl e, w3)
                     | (Inr sent, w3) \<Rightarrow> (Inr sent, print_line LogBlank w3))))"

fun process_feeds ::
    "env \<Rightarrow> bool \<Rightarrow> ustr \<Rightarrow> ustr \<Rightarrow> (ustr \<times> ustr) list \<Rightarrow> nat \<Rightarrow> world \<Rightarrow> (exn + nat) \<times> world" where
  "process_feeds ev use_rvc model_pth model_index [] total_sent w = (Inr total_sent, w)"
| "process_feeds ev use_rvc model_pth model_index (feed # feeds) total_sent w =
     (case process_feed ev use_rvc model_pth model_index feed total_sent w of
        (Inl e, w1) \<Rightarrow> (Inl e, w1)
      | (Inr sent, w1) \<Rightarrow> process_feeds ev use_rvc model_pth model_index feeds sent w1)"

text \<open>Line 215, which reads the clock.\<close>

definition banner :: "env \<Rightarrow> world \<Rightarrow> world" where
  "banner ev w =
     print_line (LogBanner (strftime ev (ascii ''%Y-%m-%d %H:%M UTC'') (utc_now ev (tick w))))
       (w\<lparr>tick := Suc (tick w)\<rparr>)"

definition main :: "config \<Rightarrow> env \<Rightarrow> world \<Rightarrow> (exn + unit) \<times> world" where
  "main cfg ev w =
     (case resolve_model cfg ev (banner ev w) of
           ((use_rvc, model_pth, model_index), w1) \<Rightarrow>
             (case process_feeds ev use_rvc model_pth model_index FEEDS 0 w1 of
                (Inl e, w2) \<Rightarrow> (Inl e, w2)
              | (Inr total_sent, w2) \<Rightarrow>
                  (Inr (), print_line (if total_sent = 0 then LogNothingFound
                                       else LogDone total_sent) w2)))"

section \<open>The specification's notion of an eligible entry\<close>

text \<open>
  Following the words of the specification, not the code: the timestamp of an entry is its
  publication timestamp, or its last-updated one when it has no publication timestamp; an
  entry is eligible when it has a timestamp and that timestamp is not earlier than the
  cutoff. \<open>spec_article\<close> is the article of an entry with its timestamp.
\<close>

definition spec_eligible :: "datetime \<Rightarrow> entry \<Rightarrow> bool" where
  "spec_eligible cutoff e =
     (case (case published_parsed e of Some v \<Rightarrow> Some v | None \<Rightarrow> updated_parsed e) of
        None \<Rightarrow> False
      | Some v \<Rightarrow> (case datetime_utc v of Inl _ \<Rightarrow> False | Inr p \<Rightarrow> cutoff \<le> p))"

definition spec_article :: "entry \<Rightarrow> article" where
  "spec_article e =
     (case (case published_parsed e of Some v \<Rightarrow> Some v | None \<Rightarrow> updated_parsed e) of
        None \<Rightarrow> mk_article e 0
      | Some v \<Rightarrow> (case datetime_utc v of Inl _ \<Rightarrow> mk_article e 0 | Inr p \<Rightarrow> mk_article e p))"

section \<open>Observations on a run\<close>

text \<open>
  A list of calls is \<open>unconverted\<close> when it holds no model download and no conversion
  call (\<open>HttpGet\<close>, \<open>Ffmpeg\<close>, \<open>RvcInfer\<close>) and every audio upload sends a file that
  a speech call of the same list wrote. \<open>rvc_attempts\<close> counts the printed outcomes of
  conversion attempts: lines 272 and 274 print one for each call of \<open>apply_rvc\<close>.
\<close>

fun spoken :: "ustr \<Rightarrow> event \<Rightarrow> bool" where
  "spoken p (GttsSave t q) = (q = p)"
| "spoken p _ = False"

fun plain_event :: "event list \<Rightarrow> event \<Rightarrow> bool" where
  "plain_event evs (HttpGet _) = False"
| "plain_event evs (Ffmpeg _ _) = False"
| "plain_event evs (RvcInfer _ _ _ _) = False"
| "plain_event evs (SendAudio c p) = list_ex (spoken p) evs"
| "plain_event evs _ = True"

definition unconverted :: "event list \<Rightarrow> bool" where
  "unconverted evs = list_all (plain_event evs) evs"

fun rvc_line :: "log_line \<Rightarrow> bool" where
  "rvc_line LogRvcOk = True"
| "rvc_line (LogRvcError _) = True"
| "rvc_line _ = False"

definition rvc_attempts :: "world \<Rightarrow> nat" where
  "rvc_attempts w = length (filter rvc_line (stdout w))"

text \<open>
  The files and the captions of the audio uploads of a list of calls, and the files that
  its speech calls wrote, each in the order of the calls.
\<close>

fun audio_paths :: "event list \<Rightarrow> ustr list" where
  "audio_paths [] = []"
| "audio_paths (SendAudio c p # evs) = p # audio_paths evs"
| "audio_paths (_ # evs) = audio_paths evs"

fun audio_captions :: "event list \<Rightarrow> ustr list" where
  "audio_captions [] = []"
| "audio_captions (SendAudio c p # evs) = c # audio_captions evs"
| "audio_captions (_ # evs) = audio_captions evs"

fun spoken_paths :: "event list \<Rightarrow> ustr list" where
  "spoken_paths [] = []"
| "spoken_paths (GttsSave t p # evs) = p # spoken_paths evs"
| "spoken_paths (_ # evs) = spoken_paths evs"

section \<open>Concrete inputs\<close>

text \<open>
  The inputs at which the theorems below are instantiated: a clock that reads
  2024-01-02 00:00:00 UTC, an environment in which every call succeeds, and feeds built
  from entries published an hour before, exactly at, and a second before the cutoff.
\<close>

definition demo_time :: struct_time where
  "demo_time = \<lparr>tm_year = 2024, tm_mon = 1, tm_mday = 1, tm_hour = 0, tm_min = 0, tm_sec = 0\<rparr>"

definition demo_now :: datetime where
  "demo_now = 63839836800000000"

definition demo_entry :: "ustr \<Rightarrow> struct_time option \<Rightarrow> struct_time option \<Rightarrow> entry" where
  "demo_entry t p u =
     \<lparr>entry_title = Some t, entry_link = Some (ascii ''https://example.org/'' @ t),
      entry_summary = Some (ascii ''Body''), entry_description = None,
      published_parsed = p, updated_parsed = u\<rparr>"

definition quiet_env :: env where
  "quiet_env =
     \<lparr>utc_now = (\<lambda>_. demo_now),
      strftime = (\<lambda>_ _. ascii ''02.01.2024''),
      feedparser_parse = (\<lambda>_. Inr []),
      chat_create = (\<lambda>_. Inr [Some (ascii ''Summary.'')]),
      named_temporary_file = (\<lambda>n. ascii ''/tmp/tmp'' @ replicate n 97),
      gtts_save = (\<lambda>_. None),
      requests_get = (\<lambda>_. Inl (LibraryError [])),
      zip_members = (\<lambda>_. Inr []),
      listing_key = (\<lambda>_. 0),
      import_rvc = (\<lambda>_. None),
      ffmpeg = (\<lambda>_. None),
      rvc_infer = (\<lambda>_. None),
      requests_post = (\<lambda>_. Inr \<lparr>resp_ok = True, resp_text = []\<rparr>)\<rparr>"

definition empty_world :: world where
  "empty_world = \<lparr>tmp_files = [], cache = [], trace = [], stdout = [], tick = 0\<rparr>"

definition hour_ago :: struct_time where
  "hour_ago = \<lparr>tm_year = 2024, tm_mon = 1, tm_mday = 1, tm_hour = 23, tm_min = 0, tm_sec = 0\<rparr>"

definition long_ago :: struct_time where
  "long_ago = \<lparr>tm_year = 2023, tm_mon = 12, tm_mday = 31, tm_hour = 23, tm_min = 59, tm_sec = 59\<rparr>"

definition feed_env :: "entry list \<Rightarrow> env" where
  "feed_env entries = quiet_env\<lparr>feedparser_parse := (\<lambda>_. Inr entries)\<rparr>"

definition five_entries :: "entry list" where
  "five_entries = map (\<lambda>t. demo_entry t (Some hour_ago) None)
                    [ascii ''A'', ascii ''B'', ascii ''C'', ascii ''D'', ascii ''E'']"

definition mixed_entries :: "entry list" where
  "mixed_entries =
     [demo_entry (ascii ''A'') None None,
      demo_entry (ascii ''B'') (Some long_ago) (Some hour_ago),
      demo_entry (ascii ''C'') None (Some hour_ago),
      demo_entry (ascii ''D'') (Some demo_time) None]"

definition demo_config :: config where
  "demo_config =
     \<lparr>GROQ_API_KEY = ascii ''key'', TG_TOKEN = ascii ''token'', TG_CHAT_ID = ascii ''42'',
      HF_MODEL_URL = ascii ''https://example.org/model.zip'', home = ascii ''/home/bot''\<rparr>"

definition demo_article :: article where
  "demo_article =
     \<lparr>title = ascii ''X'', link = ascii ''https://example.org/X'', content = ascii ''Body'',
      pub = 63839833200000000\<rparr>"

definition groq_down_env :: env where
  "groq_down_env = quiet_env\<lparr>chat_create := (\<lambda>_. Inl (LibraryError (ascii ''quota'')))\<rparr>"

text \<open>An archive whose only member is \<open>kanevsky/model.pth\<close>, served with status 200.\<close>

definition nested_archive_env :: env where
  "nested_archive_env =
     quiet_env\<lparr>requests_get := (\<lambda>_. Inr \<lparr>status_code = 200, body = Inr [80, 75, 3, 4]\<rparr>),
               zip_members := (\<lambda>_. Inr [[ascii ''kanevsky'', ascii ''model.pth'']])\<rparr>"

definition infer_fails_env :: env where
  "infer_fails_env = quiet_env\<lparr>rvc_infer := (\<lambda>_. Some (LibraryError (ascii ''inference failed'')))\<rparr>"

definition demo_article2 :: article where
  "demo_article2 =
     \<lparr>title = ascii ''Y'', link = ascii ''https://example.org/Y'', content = ascii ''Text'',
      pub = 63839833200000000\<rparr>"





text \<open>An entry stamped 2030-06-15 12:00:00, years after the clock of the environment.\<close>

definition future_time :: struct_time where
  "future_time = \<lparr>tm_year = 2030, tm_mon = 6, tm_mday = 15, tm_hour = 12, tm_min = 0, tm_sec = 0\<rparr>"

definition future_entry :: entry where
  "future_entry = demo_entry (ascii ''F'') (Some future_time) None"

section \<open>The feed reader\<close>

lemmas demo_defs = quiet_env_def feed_env_def empty_world_def demo_entry_def demo_time_def
  demo_now_def hour_ago_def long_ago_def five_entries_def mixed_entries_def

lemmas date_defs = datetime_utc_def ymd2ord_def days_before_year_def days_before_month_def
  days_in_month_def is_leap_def DAYS_IN_MONTH_def timedelta_hours_def LOOKBACK_HOURS_def

lemma datetime_demo [simp]: "datetime_utc demo_time = Inr 63839750400000000"
  by (simp add: date_defs demo_time_def)

lemma datetime_hour_ago [simp]: "datetime_utc hour_ago = Inr 63839833200000000"
  by (simp add: date_defs hour_ago_def)

lemma datetime_long_ago [simp]: "datetime_utc long_ago = Inr 63839750399000000"
  by (simp add: date_defs long_ago_def)

lemma datetime_future [simp]: "datetime_utc future_time = Inr 64043438400000000"
  by (simp add: date_defs future_time_def)

lemma entry_pub_cases:
  "entry_pub e = Inr (Some p) \<longleftrightarrow>
     (\<exists>val. (published_parsed e = Some val \<or> published_parsed e = None \<and> updated_parsed e = Some val)
            \<and> datetime_utc val = Inr p)"
  by (cases "published_parsed e"; cases "updated_parsed e")
     (auto simp: entry_pub_def split: sum.splits)

lemma entry_pub_None:
  "entry_pub e = Inr None \<longleftrightarrow> published_parsed e = None \<and> updated_parsed e = None"
  by (cases "published_parsed e"; cases "updated_parsed e")
     (auto simp: entry_pub_def split: sum.splits)

lemma spec_eligible_iff:
  "spec_eligible cutoff e \<longleftrightarrow> (\<exists>p. entry_pub e = Inr (Some p) \<and> cutoff \<le> p)"
  by (cases "published_parsed e"; cases "updated_parsed e")
     (auto simp: spec_eligible_def entry_pub_def split: sum.splits)

lemma spec_article_eq: "entry_pub e = Inr (Some p) \<Longrightarrow> spec_article e = mk_article e p"
  by (cases "published_parsed e"; cases "updated_parsed e")
     (auto simp: spec_article_def entry_pub_def split: sum.splits)

lemma collect_char:
  "collect cutoff entries acc = Inr arts \<Longrightarrow> length acc < MAX_ARTICLES_PER_BLOG \<Longrightarrow>
   arts = take MAX_ARTICLES_PER_BLOG (acc @ map spec_article (filter (spec_eligible cutoff) entries))"
proof (induction entries arbitrary: acc)
  case Nil
  then show ?case by simp
next
  case (Cons e entries)
  show ?case
  proof (cases "entry_pub e")
    case (Inl err)
    with Cons.prems show ?thesis by simp
  next
    case (Inr po)
    show ?thesis
    proof (cases po)
      case None
      with Inr have "\<not> spec_eligible cutoff e" by (simp add: spec_eligible_iff)
      with Cons None Inr show ?thesis by simp
    next
      case (Some p)
      show ?thesis
      proof (cases "p < cutoff")
        case True
        with Inr Some have "\<not> spec_eligible cutoff e" by (simp add: spec_eligible_iff)
        with Cons Some Inr True show ?thesis by simp
      next
        case False
        with Inr Some have el: "spec_eligible cutoff e" by (simp add: spec_eligible_iff)
        have art: "spec_article e = mk_article e p" using Inr Some by (simp add: spec_article_eq)
        show ?thesis
        proof (cases "MAX_ARTICLES_PER_BLOG \<le> Suc (length acc)")
          case True
          with Cons.prems Inr Some False have "arts = acc @ [mk_article e p]" by simp
          moreover from True Cons.prems(2) have "MAX_ARTICLES_PER_BLOG - length acc = Suc 0" by simp
          ultimately show ?thesis using el art by simp
        next
          case nocap: False
          with Cons.prems Inr Some False
          have "collect cutoff entries (acc @ [mk_article e p]) = Inr arts" by simp
          from Cons.IH[OF this] nocap show ?thesis using el art by simp
        qed
      qed
    qed
  qed
qed

lemma collect_prefix: "collect cutoff entries acc = Inr arts \<Longrightarrow> prefix acc arts"
proof (induction entries arbitrary: acc)
  case Nil then show ?case by simp
next
  case (Cons e entries)
  then show ?case
    by (auto split: sum.splits option.splits if_splits dest!: Cons.IH simp: prefix_def)
qed

lemma collect_append:
  "length acc0 < MAX_ARTICLES_PER_BLOG \<Longrightarrow>
   collect cutoff (xs @ ys) acc0 =
     (case collect cutoff xs acc0 of
        Inl e \<Rightarrow> Inl e
      | Inr acc \<Rightarrow> if MAX_ARTICLES_PER_BLOG \<le> length acc then Inr acc else collect cutoff ys acc)"
proof (induction xs arbitrary: acc0)
  case Nil then show ?case by simp
next
  case (Cons x xs)
  then show ?case by (auto split: sum.splits option.splits)
qed

lemma get_recent_articles_collect:
  assumes "feedparser_parse ev (tick w) = Inr entries"
  shows "fst (get_recent_articles ev url w) =
         collect (utc_now ev (Suc (tick w)) - timedelta_hours LOOKBACK_HOURS) entries []"
  using assms by (simp add: get_recent_articles_def emit_def Let_def)

lemma get_recent_articles_char:
  assumes "get_recent_articles ev url w = (Inr arts, w')"
      and "feedparser_parse ev (tick w) = Inr entries"
  shows "arts = take MAX_ARTICLES_PER_BLOG
                  (map spec_article
                     (filter (spec_eligible (utc_now ev (Suc (tick w)) - timedelta_hours LOOKBACK_HOURS))
                        entries))"
proof -
  have "collect (utc_now ev (Suc (tick w)) - timedelta_hours LOOKBACK_HOURS) entries [] = Inr arts"
    using assms get_recent_articles_collect[OF assms(2), of url] by simp
  from collect_char[OF this] show ?thesis by (simp add: MAX_ARTICLES_PER_BLOG_def)
qed

lemma subseq_take: "subseq (take n xs) xs"
  by (induction xs arbitrary: n) (auto simp: take_Cons split: nat.splits)

lemma subseq_take_filter: "subseq (take n (filter P xs)) xs"
  using subseq_take subseq_filter_left subseq_order.trans by blast

lemma mixed_eval:
  "fst (get_recent_articles (feed_env mixed_entries) (ascii ''u'') empty_world) =
     Inr [mk_article (mixed_entries ! 2) 63839833200000000,
          mk_article (mixed_entries ! 3) 63839750400000000]"
  unfolding get_recent_articles_def
  by (simp add: demo_defs entry_pub_def emit_def MAX_ARTICLES_PER_BLOG_def timedelta_hours_def
      LOOKBACK_HOURS_def flip: hour_ago_def long_ago_def demo_time_def)

lemma five_eval:
  "fst (get_recent_articles (feed_env five_entries) (ascii ''u'') empty_world) =
     Inr [mk_article (five_entries ! 0) 63839833200000000, mk_article (five_entries ! 1) 63839833200000000]"
  unfolding get_recent_articles_def
  by (simp add: demo_defs entry_pub_def emit_def MAX_ARTICLES_PER_BLOG_def timedelta_hours_def LOOKBACK_HOURS_def
      flip: hour_ago_def)

text \<open>
  Claim C1, as amended. An article is in the output of the feed reader only if it comes
  from an entry of the feed that carries a publication timestamp, or else a last-updated
  one (the publication timestamp is the one taken when present), and that timestamp is
  not earlier than the current UTC time minus \<open>LOOKBACK_HOURS\<close>. No article comes from
  an entry that lacks both timestamps. The timestamp is not compared with the current
  time itself.
\<close>

theorem feed_reader_recent_only:
  assumes "get_recent_articles ev url w = (Inr arts, w')"
      and "feedparser_parse ev (tick w) = Inr entries"
  shows "\<exists>es. subseq es entries \<and> length es = length arts \<and>
           (\<forall>i<length arts. \<exists>val p.
              (published_parsed (es ! i) = Some val \<or>
               published_parsed (es ! i) = None \<and> updated_parsed (es ! i) = Some val) \<and>
              datetime_utc val = Inr p \<and>
              utc_now ev (Suc (tick w)) - timedelta_hours LOOKBACK_HOURS \<le> p \<and>
              arts ! i = mk_article (es ! i) p)"
proof -
  let ?cutoff = "utc_now ev (Suc (tick w)) - timedelta_hours LOOKBACK_HOURS"
  let ?es = "take MAX_ARTICLES_PER_BLOG (filter (spec_eligible ?cutoff) entries)"
  have arts: "arts = map spec_article ?es"
    using get_recent_articles_char[OF assms] by (simp add: take_map)
  have sub: "subseq ?es entries"
    using subseq_take_filter by blast
  have "\<exists>val p. (published_parsed (?es ! i) = Some val \<or>
               published_parsed (?es ! i) = None \<and> updated_parsed (?es ! i) = Some val) \<and>
              datetime_utc val = Inr p \<and> ?cutoff \<le> p \<and> arts ! i = mk_article (?es ! i) p"
    if "i < length arts" for i
  proof -
    from that arts have i: "i < length ?es" by simp
    then have "?es ! i \<in> set ?es" by (rule nth_mem)
    then have "spec_eligible ?cutoff (?es ! i)" by (auto dest: in_set_takeD)
    then obtain p where p: "entry_pub (?es ! i) = Inr (Some p)" "?cutoff \<le> p"
      by (auto simp: spec_eligible_iff)
    from p(1) obtain val where
      "(published_parsed (?es ! i) = Some val \<or>
        published_parsed (?es ! i) = None \<and> updated_parsed (?es ! i) = Some val) \<and>
       datetime_utc val = Inr p"
      unfolding entry_pub_cases by blast
    moreover have "arts ! i = mk_article (?es ! i) p"
      using arts i spec_article_eq[OF p(1)] by simp
    ultimately show ?thesis using p(2) by blast
  qed
  moreover have "length ?es = length arts" using arts by simp
  ultimately show ?thesis using sub by blast
qed

theorem feed_reader_recent_only_witness:
  "fst (get_recent_articles (feed_env mixed_entries) (ascii ''u'') empty_world) =
     Inr [mk_article (mixed_entries ! 2) 63839833200000000,
          mk_article (mixed_entries ! 3) 63839750400000000]
   \<and> (\<exists>es. subseq es mixed_entries \<and> length es = 2 \<and>
           (\<forall>i<2. \<exists>val p.
              (published_parsed (es ! i) = Some val \<or>
               published_parsed (es ! i) = None \<and> updated_parsed (es ! i) = Some val) \<and>
              datetime_utc val = Inr p \<and> demo_now - timedelta_hours LOOKBACK_HOURS \<le> p \<and>
              [mk_article (mixed_entries ! 2) 63839833200000000,
               mk_article (mixed_entries ! 3) 63839750400000000] ! i = mk_article (es ! i) p))"
proof -
  let ?r = "get_recent_articles (feed_env mixed_entries) (ascii ''u'') empty_world"
  have h: "?r = (Inr [mk_article (mixed_entries ! 2) 63839833200000000,
                      mk_article (mixed_entries ! 3) 63839750400000000], snd ?r)"
    using mixed_eval by (simp add: prod_eq_iff)
  have p: "feedparser_parse (feed_env mixed_entries) (tick empty_world) = Inr mixed_entries"
    by (simp add: feed_env_def)
  have n: "utc_now (feed_env mixed_entries) (Suc (tick empty_world)) = demo_now"
    by (simp add: feed_env_def quiet_env_def)
  from feed_reader_recent_only[OF h p] mixed_eval n show ?thesis
    by (simp add: numeral_2_eq_2)
qed

text \<open>
  Claim C1 as stated says that the timestamp of an emitted entry lies within the last
  \<open>LOOKBACK_HOURS\<close> of the current UTC time. Line 62 tests \<open>pub < cutoff\<close> only: an
  entry stamped in 2030 is emitted while the clock reads 2024-01-02.
\<close>

theorem future_entry_is_emitted:
  "utc_now (feed_env [future_entry]) (Suc (tick empty_world)) = demo_now
   \<and> fst (get_recent_articles (feed_env [future_entry]) (ascii ''u'') empty_world) =
       Inr [mk_article future_entry 64043438400000000]
   \<and> demo_now < pub (mk_article future_entry 64043438400000000)"
  unfolding get_recent_articles_def
  by (simp add: demo_defs future_entry_def entry_pub_def emit_def MAX_ARTICLES_PER_BLOG_def
      timedelta_hours_def LOOKBACK_HOURS_def mk_article_def flip: future_time_def)

text \<open>
  Claim C7. For every feed the feed reader emits at most \<open>MAX_ARTICLES_PER_BLOG\<close>
  articles, however many entries the feed has, and the articles emitted are those of the
  first eligible entries, in the order of the feed. A feed that fails to parse gives none.
\<close>

theorem feed_reader_cap:
  assumes "get_recent_articles ev url w = (Inr arts, w')"
  shows "length arts \<le> MAX_ARTICLES_PER_BLOG \<and>
         (case feedparser_parse ev (tick w) of
            Inl _ \<Rightarrow> arts = []
          | Inr entries \<Rightarrow>
              arts = take MAX_ARTICLES_PER_BLOG
                       (map spec_article
                          (filter (spec_eligible (utc_now ev (Suc (tick w)) - timedelta_hours LOOKBACK_HOURS))
                             entries)))"
proof (cases "feedparser_parse ev (tick w)")
  case (Inl e)
  with assms show ?thesis by (simp add: get_recent_articles_def)
next
  case (Inr entries)
  from get_recent_articles_char[OF assms Inr] Inr show ?thesis by simp
qed

theorem feed_reader_cap_witness:
  "fst (get_recent_articles (feed_env five_entries) (ascii ''u'') empty_world) =
     Inr [mk_article (five_entries ! 0) 63839833200000000, mk_article (five_entries ! 1) 63839833200000000]
   \<and> length five_entries = 5
   \<and> length [mk_article (five_entries ! 0) 63839833200000000,
             mk_article (five_entries ! 1) 63839833200000000] \<le> MAX_ARTICLES_PER_BLOG"
proof -
  let ?r = "get_recent_articles (feed_env five_entries) (ascii ''u'') empty_world"
  have h: "?r = (Inr [mk_article (five_entries ! 0) 63839833200000000,
                      mk_article (five_entries ! 1) 63839833200000000], snd ?r)"
    using five_eval by (simp add: prod_eq_iff)
  from feed_reader_cap[OF h] five_eval show ?thesis by (simp add: five_entries_def)
qed

text \<open>
  Claim C10. An entry whose timestamp is exactly the cutoff, the current UTC time minus
  \<open>LOOKBACK_HOURS\<close>, is included: when the loop reaches it below the cap (the entries
  before it gave the articles \<open>acc\<close>, fewer than the cap), its article is the next one
  of the output.
\<close>

theorem feed_reader_boundary_inclusive:
  assumes "get_recent_articles ev url w = (Inr arts, w')"
      and "feedparser_parse ev (tick w) = Inr (before @ e # after)"
      and "cutoff = utc_now ev (Suc (tick w)) - timedelta_hours LOOKBACK_HOURS"
      and "collect cutoff before [] = Inr acc"
      and "length acc < MAX_ARTICLES_PER_BLOG"
      and "entry_pub e = Inr (Some cutoff)"
  shows "length acc < length arts \<and> arts ! length acc = mk_article e cutoff"
proof -
  have c: "collect cutoff (before @ e # after) [] = Inr arts"
    using assms(1,3) get_recent_articles_collect[OF assms(2), of url] by simp
  have pos: "length ([]::article list) < MAX_ARTICLES_PER_BLOG"
    by (simp add: MAX_ARTICLES_PER_BLOG_def)
  have "collect cutoff (e # after) acc = Inr arts"
    using c assms(4,5) by (simp add: collect_append[OF pos])
  then have "prefix (acc @ [mk_article e cutoff]) arts"
    using assms(6) by (auto split: if_splits dest: collect_prefix)
  then show ?thesis by (auto simp: prefix_def nth_append)
qed

theorem feed_reader_boundary_inclusive_witness:
  "entry_pub (mixed_entries ! 3) = Inr (Some (demo_now - timedelta_hours LOOKBACK_HOURS))
   \<and> fst (get_recent_articles (feed_env mixed_entries) (ascii ''u'') empty_world) =
       Inr [mk_article (mixed_entries ! 2) 63839833200000000,
            mk_article (mixed_entries ! 3) 63839750400000000]
   \<and> [mk_article (mixed_entries ! 2) 63839833200000000,
       mk_article (mixed_entries ! 3) 63839750400000000] ! 1 =
     mk_article (mixed_entries ! 3) (demo_now - timedelta_hours LOOKBACK_HOURS)"
proof -
  let ?r = "get_recent_articles (feed_env mixed_entries) (ascii ''u'') empty_world"
  let ?cutoff = "demo_now - timedelta_hours LOOKBACK_HOURS"
  let ?acc = "[mk_article (mixed_entries ! 2) 63839833200000000]"
  have h: "?r = (Inr [mk_article (mixed_entries ! 2) 63839833200000000,
                      mk_article (mixed_entries ! 3) 63839750400000000], snd ?r)"
    using mixed_eval by (simp add: prod_eq_iff)
  have p: "feedparser_parse (feed_env mixed_entries) (tick empty_world) =
             Inr (take 3 mixed_entries @ mixed_entries ! 3 # [])"
    by (simp add: feed_env_def mixed_entries_def)
  have n: "?cutoff = utc_now (feed_env mixed_entries) (Suc (tick empty_world))
                       - timedelta_hours LOOKBACK_HOURS"
    by (simp add: feed_env_def quiet_env_def)
  have c: "collect ?cutoff (take 3 mixed_entries) [] = Inr ?acc"
    by (simp add: demo_defs entry_pub_def MAX_ARTICLES_PER_BLOG_def timedelta_hours_def
        LOOKBACK_HOURS_def flip: hour_ago_def long_ago_def demo_time_def)
  have l: "length ?acc < MAX_ARTICLES_PER_BLOG"
    by (simp add: MAX_ARTICLES_PER_BLOG_def)
  have e: "entry_pub (mixed_entries ! 3) = Inr (Some ?cutoff)"
    by (simp add: demo_defs entry_pub_def timedelta_hours_def LOOKBACK_HOURS_def
        flip: demo_time_def)
  from feed_reader_boundary_inclusive[OF h p n c l e] e mixed_eval show ?thesis by simp
qed

section \<open>Evaluation and the trace of the basic calls\<close>

lemma ascii_simps [simp]: "ascii [] = []" "ascii (c # s) = of_char c # ascii s"
  by (simp_all add: ascii_def)

lemmas world_defs = emit_def print_line_def create_file_def unlink_if_exists_def sleep_def

lemmas run_defs = process_article_def speak_def convert_def deliver_def apply_rvc_def run_ffmpeg_def
      run_rvc_def tts_to_mp3_def summarize_to_russian_def tg_send_audio_def tg_send_text_def

lemmas env_defs = quiet_env_def empty_world_def demo_article_def demo_article2_def

section \<open>The summarizer\<close>

text \<open>
  Claim C5, as amended. Whenever the chat completion call raises, or its answer has no
  choice or a first choice without content, \<open>summarize_to_russian\<close> returns the text of
  line 103, the Russian words of \<open>fallback_prefix\<close> followed by the title, whatever the
  body is; it returns a value in every case, so the failure does not leave the function.
\<close>

theorem summarize_fallback:
  assumes "chat_create ev (tick w) = Inl e \<or> chat_create ev (tick w) = Inr [] \<or>
           (\<exists>cs. chat_create ev (tick w) = Inr (None # cs))"
  shows "fst (summarize_to_russian ev ttl cnt w) = fallback_prefix @ ttl \<and>
         trace (snd (summarize_to_russian ev ttl cnt w)) = trace w @ [ChatCompletion (prompt ttl cnt)]"
  using assms by (auto simp: summarize_to_russian_def Let_def emit_def print_line_def)

theorem summarize_fallback_witness:
  "chat_create groq_down_env (tick empty_world) = Inl (LibraryError (ascii ''quota'')) \<and>
   fst (summarize_to_russian groq_down_env (ascii ''X'') (ascii ''Body'') empty_world) =
     fallback_prefix @ ascii ''X''"
proof -
  have h: "chat_create groq_down_env (tick empty_world) = Inl (LibraryError (ascii ''quota''))"
    by (simp add: groq_down_env_def quiet_env_def)
  from summarize_fallback[of groq_down_env empty_world, OF disjI1, OF h] h show ?thesis by simp
qed

text \<open>
  The fallback is not the English text \<open>New article: \<close> followed by the title that
  claim C5 names.
\<close>

theorem summarize_fallback_not_english:
  "chat_create groq_down_env (tick empty_world) = Inl (LibraryError (ascii ''quota'')) \<and>
   fst (summarize_to_russian groq_down_env (ascii ''X'') (ascii ''Body'') empty_world) \<noteq>
     ascii ''New article: '' @ ascii ''X''"
  by (simp add: summarize_to_russian_def groq_down_env_def quiet_env_def emit_def fallback_prefix_def
      empty_world_def)

section \<open>The model cache\<close>

text \<open>
  With a weights file directly in the cache directory the function returns it and makes
  no request.
\<close>

lemma cache_hit_no_network:
  assumes "glob ev (ascii ''.pth'') (cache w) = pth # others"
  shows "download_model_if_needed cfg ev w =
           (Inr (model_paths cfg pth (glob ev (ascii ''.index'') (cache w))),
            print_line (LogModelCached (path_str cfg pth)) w)"
  using assms by (simp add: download_model_if_needed_def)

text \<open>
  Which of several matches comes first is the listing's choice, not the archive's; a
  folder whose name ends in \<open>.pth\<close> is a match like a file.
\<close>

lemma listing_decides_first_match:
  "rglob (quiet_env\<lparr>listing_key := length\<rparr>) (ascii ''.pth'')
     [[ascii ''sub''], [ascii ''sub'', ascii ''b.pth''], [ascii ''a.pth'']] =
     [[ascii ''a.pth''], [ascii ''sub'', ascii ''b.pth'']]
   \<and> glob quiet_env (ascii ''.pth'') (add_path [ascii ''w.pth'', ascii ''data.bin''] []) =
       [[ascii ''w.pth'']]"
  by (simp add: rglob_def glob_def add_path_def add_entry_def quiet_env_def suffix_to_prefix)

text \<open>
  Claim C2 says that once a weights file exists in the cache directory a later call
  returns it with no network request, so that the package is never downloaded twice. The
  scan after the download is recursive (\<open>rglob\<close>), the scan before it is not
  (\<open>glob\<close>): from an empty cache and an archive that holds \<open>kanevsky/model.pth\<close>,
  the first call downloads, finds the weights file in the cache directory and returns it,
  and the second call, on the cache the first one left, downloads again.
\<close>

theorem nested_model_downloaded_again:
  "fst (download_model_if_needed demo_config nested_archive_env empty_world) =
     Inr (ascii ''/home/bot/.rvc_models/kanevsky/kanevsky/model.pth'', [])
   \<and> cache (snd (download_model_if_needed demo_config nested_archive_env empty_world)) =
       [[ascii ''kanevsky''], [ascii ''kanevsky'', ascii ''model.pth'']]
   \<and> trace (snd (download_model_if_needed demo_config nested_archive_env empty_world)) =
       [HttpGet (ascii ''https://example.org/model.zip'')]
   \<and> trace (snd (download_model_if_needed demo_config nested_archive_env
                   (snd (download_model_if_needed demo_config nested_archive_env empty_world)))) =
       [HttpGet (ascii ''https://example.org/model.zip''), HttpGet (ascii ''https://example.org/model.zip'')]"
  by (simp add: download_model_if_needed_def demo_config_def nested_archive_env_def quiet_env_def
      empty_world_def glob_def rglob_def add_entry_def add_path_def emit_def print_line_def model_paths_def
      path_str_def cache_dir_def suffix_to_prefix)

section \<open>Delivery\<close>


lemma tg_send_text_result:
  "fst (tg_send_text ev t w) = (case requests_post ev (tick w) of Inl e \<Rightarrow> Inl e | Inr _ \<Rightarrow> Inr ())"
  by (simp add: tg_send_text_def split: sum.splits)








section \<open>Speech synthesis\<close>



lemma speak_creates:
  "speak ev a w = (Inr p, w1) \<Longrightarrow> p \<in> set (tmp_files w1)"
  by (auto simp: speak_def summarize_to_russian_def tts_to_mp3_def world_defs Let_def
      split: sum.splits list.splits option.splits)

lemma error_leaves_feed_loop:
  "process_feed ev u p i feed n w = (Inl e, w1) \<Longrightarrow>
   process_feeds ev u p i (feed # feeds) n w = (Inl e, w1)"
  by simp

lemma error_leaves_main:
  "resolve_model cfg ev (banner ev w) = ((u, p, i), w1) \<Longrightarrow>
   process_feeds ev u p i FEEDS 0 w1 = (Inl e, w2) \<Longrightarrow> main cfg ev w = (Inl e, w2)"
  by (simp add: main_def)



section \<open>The conversion\<close>

lemma apply_rvc_failure_keeps_files:
  "apply_rvc ev mp3_in mp3_out model_pth model_index w = (Inl e, w') \<Longrightarrow>
   set (tmp_files w) \<subseteq> set (tmp_files w')"
  by (auto simp: apply_rvc_def run_ffmpeg_def run_rvc_def world_defs Let_def
      split: option.splits)

lemma speak_attempts [simp]: "rvc_attempts (snd (speak ev a w)) = rvc_attempts w"
  by (simp add: rvc_attempts_def speak_def summarize_to_russian_def tts_to_mp3_def world_defs Let_def
      split: sum.splits list.splits option.splits)

lemma apply_rvc_stdout:
  "apply_rvc ev mp3_in mp3_out model_pth model_index w = (r, w') \<Longrightarrow> stdout w' = stdout w"
  by (auto simp: apply_rvc_def run_ffmpeg_def run_rvc_def world_defs Let_def split: option.splits)

lemma convert_attempts [simp]:
  "rvc_attempts (snd (convert ev True model_pth model_index tts_path w)) = Suc (rvc_attempts w)"
  by (cases "apply_rvc ev tts_path (replace tts_path (ascii ''.mp3'') (ascii ''_kanevsky.mp3''))
               model_pth model_index w")
     (auto simp: rvc_attempts_def convert_def Let_def print_line_def split: sum.splits
           dest: apply_rvc_stdout)

lemma deliver_attempts [simp]: "rvc_attempts (snd (deliver ev a t p w)) = rvc_attempts w"
  by (simp add: rvc_attempts_def deliver_def tg_send_audio_def tg_send_text_def world_defs Let_def
      split: sum.splits prod.splits)

lemma process_article_attempts:
  assumes "process_article ev True model_pth model_index a w = (Inr u, w')"
  shows "rvc_attempts w' = Suc (rvc_attempts w)"
proof (cases "speak ev a w")
  case (Pair r w1)
  with assms obtain p where r: "r = Inr p" by (cases r) (auto simp: process_article_def)
  have a1: "rvc_attempts w1 = rvc_attempts w" using speak_attempts[of ev a w] Pair by simp
  obtain ap w2 where c: "convert ev True model_pth model_index p w1 = (ap, w2)" by fastforce
  have a2: "rvc_attempts w2 = Suc (rvc_attempts w1)"
    using convert_attempts[of ev model_pth model_index p w1] c by simp
  have "w' = snd (deliver ev a p ap w2)" using assms Pair r c by (simp add: process_article_def)
  with a1 a2 show ?thesis by simp
qed

lemma process_articles_attempts:
  "process_articles ev True model_pth model_index articles n w = (Inr m, w') \<Longrightarrow>
   rvc_attempts w' = rvc_attempts w + length articles"
proof (induction articles arbitrary: n w)
  case Nil
  then show ?case by simp
next
  case (Cons a articles)
  show ?case
  proof (cases "process_article ev True model_pth model_index a w")
    case (Pair r w1)
    with Cons.prems obtain u where r: "r = Inr u" by (cases r) auto
    from Pair r have "rvc_attempts w1 = Suc (rvc_attempts w)" by (simp add: process_article_attempts)
    moreover from Cons.prems Pair r
    have "process_articles ev True model_pth model_index articles (Suc n) w1 = (Inr m, w')" by simp
    from Cons.IH[OF this] have "rvc_attempts w' = rvc_attempts w1 + length articles" .
    ultimately show ?thesis by simp
  qed
qed

text \<open>
  Claim C3. With the conversion enabled, when \<open>apply_rvc\<close> raises for an article whose
  speech file \<open>tts_path\<close> has been written, the article goes on to delivery with that
  same, unconverted file: the next call after the failed conversion is the audio upload
  of \<open>tts_path\<close>. The loop then continues with the conversion still enabled, and in a
  loop that runs to its end every article has had its conversion attempted.
\<close>

theorem conversion_failure_falls_back:
  assumes "speak ev a w = (Inr tts_path, w1)"
      and "apply_rvc ev tts_path (replace tts_path (ascii ''.mp3'') (ascii ''_kanevsky.mp3''))
             model_pth model_index w1 = (Inl e, w2)"
  shows "process_article ev True model_pth model_index a w =
           deliver ev a tts_path tts_path (print_line (LogRvcError e) w2)
         \<and> prefix (trace w2 @ [SendAudio (caption (title a) (link a)) tts_path])
             (trace (snd (process_article ev True model_pth model_index a w)))
         \<and> (\<forall>articles n w'.
               process_article ev True model_pth model_index a w = (Inr (), w') \<longrightarrow>
               process_articles ev True model_pth model_index (a # articles) n w =
                 process_articles ev True model_pth model_index articles (Suc n) w')
         \<and> (\<forall>articles n m w'.
               process_articles ev True model_pth model_index (a # articles) n w = (Inr m, w') \<longrightarrow>
               rvc_attempts w' = rvc_attempts w + Suc (length articles))"
proof -
  let ?w3 = "print_line (LogRvcError e) w2"
  have pa: "process_article ev True model_pth model_index a w = deliver ev a tts_path tts_path ?w3"
    using assms by (simp add: process_article_def convert_def)
  have "tts_path \<in> set (tmp_files w1)" using assms(1) by (rule speak_creates)
  with apply_rvc_failure_keeps_files[OF assms(2)] have ex: "tts_path \<in> set (tmp_files ?w3)"
    by (auto simp: world_defs)
  have "prefix (trace ?w3 @ [SendAudio (caption (title a) (link a)) tts_path])
          (trace (snd (deliver ev a tts_path tts_path ?w3)))"
    using ex
    by (auto simp: deliver_def tg_send_audio_def tg_send_text_def world_defs Let_def prefix_def
        split: sum.splits)
  then have "prefix (trace w2 @ [SendAudio (caption (title a) (link a)) tts_path])
             (trace (snd (process_article ev True model_pth model_index a w)))"
    by (simp add: pa world_defs)
  moreover have "\<forall>articles n m w'.
               process_articles ev True model_pth model_index (a # articles) n w = (Inr m, w') \<longrightarrow>
               rvc_attempts w' = rvc_attempts w + Suc (length articles)"
    using process_articles_attempts[of ev model_pth model_index "a # _"] by simp
  ultimately show ?thesis using pa by simp
qed

theorem conversion_failure_falls_back_witness:
  "fst (speak infer_fails_env demo_article empty_world) = Inr (ascii ''/tmp/tmpa.mp3'')
   \<and> fst (apply_rvc infer_fails_env (ascii ''/tmp/tmpa.mp3'')
            (replace (ascii ''/tmp/tmpa.mp3'') (ascii ''.mp3'') (ascii ''_kanevsky.mp3''))
            (ascii ''m.pth'') [] (snd (speak infer_fails_env demo_article empty_world))) =
       Inl (LibraryError (ascii ''inference failed''))
   \<and> prefix (trace (snd (apply_rvc infer_fails_env (ascii ''/tmp/tmpa.mp3'')
            (replace (ascii ''/tmp/tmpa.mp3'') (ascii ''.mp3'') (ascii ''_kanevsky.mp3''))
            (ascii ''m.pth'') [] (snd (speak infer_fails_env demo_article empty_world))))
              @ [SendAudio (caption (title demo_article) (link demo_article)) (ascii ''/tmp/tmpa.mp3'')])
        (trace (snd (process_article infer_fails_env True (ascii ''m.pth'') [] demo_article empty_world)))"
proof -
  let ?sp = "speak infer_fails_env demo_article empty_world"
  let ?rv = "apply_rvc infer_fails_env (ascii ''/tmp/tmpa.mp3'')
            (replace (ascii ''/tmp/tmpa.mp3'') (ascii ''.mp3'') (ascii ''_kanevsky.mp3''))
            (ascii ''m.pth'') [] (snd ?sp)"
  have s1: "fst ?sp = Inr (ascii ''/tmp/tmpa.mp3'')"
    by (simp add: speak_def summarize_to_russian_def tts_to_mp3_def infer_fails_env_def env_defs
        world_defs Let_def)
  have s2: "fst ?rv = Inl (LibraryError (ascii ''inference failed''))"
    by (simp add: apply_rvc_def run_ffmpeg_def run_rvc_def infer_fails_env_def quiet_env_def
        world_defs Let_def split: prod.splits)
  have h1: "?sp = (Inr (ascii ''/tmp/tmpa.mp3''), snd ?sp)"
    using s1 by (simp add: prod_eq_iff)
  have h2: "?rv = (Inl (LibraryError (ascii ''inference failed'')), snd ?rv)"
    using s2 by (simp add: prod_eq_iff)
  from conversion_failure_falls_back[OF h1 h2] s1 s2 show ?thesis by blast
qed

section \<open>Cleanup\<close>

text \<open>
  When the conversion succeeds, and when it is not used, nothing of the article is left.
\<close>

lemma no_file_left_after_conversion:
  "fst (process_article quiet_env True (ascii ''m.pth'') [] demo_article empty_world) = Inr ()
   \<and> tmp_files (snd (process_article quiet_env True (ascii ''m.pth'') [] demo_article empty_world)) = []"
  by (simp add: run_defs env_defs world_defs Let_def)

lemma no_file_left_without_conversion:
  "fst (process_article quiet_env False [] [] demo_article empty_world) = Inr ()
   \<and> tmp_files (snd (process_article quiet_env False [] [] demo_article empty_world)) = []"
  by (simp add: run_defs env_defs world_defs Let_def)

text \<open>
  Claim C6 says that after an article no temporary audio file of it remains, whether the
  conversion succeeds or fails. \<open>apply_rvc\<close> removes its two WAV files only after its
  last step: when the inference raises, after \<open>ffmpeg\<close> has written the first of them,
  the article is still delivered (with the unconverted audio) and that WAV file remains.
\<close>

theorem wav_left_after_failed_conversion:
  "fst (process_article infer_fails_env True (ascii ''m.pth'') [] demo_article empty_world) = Inr ()
   \<and> tmp_files (snd (process_article infer_fails_env True (ascii ''m.pth'') [] demo_article empty_world)) =
       [ascii ''/tmp/tmpa_in.wav'']"
  by (simp add: process_article_def speak_def convert_def deliver_def apply_rvc_def run_ffmpeg_def
      run_rvc_def tts_to_mp3_def summarize_to_russian_def tg_send_audio_def tg_send_text_def
      infer_fails_env_def quiet_env_def empty_world_def demo_article_def emit_def print_line_def
      create_file_def unlink_if_exists_def sleep_def Let_def)

section \<open>The run\<close>


lemma unconverted_Nil [simp]: "unconverted []"
  by (simp add: unconverted_def)








lemma get_recent_articles_trace [simp]:
  "trace (snd (get_recent_articles ev url w)) = trace w @ [FeedParse url]"
  by (simp add: get_recent_articles_def world_defs Let_def split: sum.splits)







lemma audio_paths_append [simp]: "audio_paths (xs @ ys) = audio_paths xs @ audio_paths ys"
  by (induction xs rule: audio_paths.induct) simp_all

lemma audio_captions_append [simp]:
  "audio_captions (xs @ ys) = audio_captions xs @ audio_captions ys"
  by (induction xs rule: audio_captions.induct) simp_all

lemma spoken_paths_append [simp]: "spoken_paths (xs @ ys) = spoken_paths xs @ spoken_paths ys"
  by (induction xs rule: spoken_paths.induct) simp_all













end
